theory Spec2Isabelle
  imports Complex_Main "HOL-Library.Sublist"
begin

section \<open>NodeSentinel: the alert decision logic\<close>

text \<open>
  A shallow embedding of the decision layer of \<^verbatim>\<open>crypto_utils.py\<close> and
  \<^verbatim>\<open>nodesentinel.py\<close>. The fee sample and the fee thresholds are Python floats
  with their infinities and NaN (\<open>pyfloat\<close>), since every comparison with NaN is
  false; prices, percentages and clock readings are modelled as \<^typ>\<open>real\<close>. The
  clock readings (\<^verbatim>\<open>time.time()\<close>) and the values returned by the HTTP, SSH and RPC
  collaborators are inputs of each cycle. A call of \<^verbatim>\<open>send_alert\<close> is an element
  of the list of alerts a cycle returns, in the order of the calls. The endless
  \<^verbatim>\<open>while True\<close> loops are run over a finite list of cycle inputs; an exception
  that leaves \<^verbatim>\<open>surveillance_task\<close> is recorded in the state and ends the run.
\<close>

subsection \<open>Python floats under comparison\<close>

text \<open>
  A float is a finite number, one of the two infinities or NaN. \<^verbatim>\<open><\<close>,
  \<^verbatim>\<open><=\<close> and \<^verbatim>\<open>>\<close> order the first three and are false as soon as one side
  is NaN.
\<close>

datatype pyfloat = Finite real | PosInf | NegInf | NaN

fun is_nan :: "pyfloat \<Rightarrow> bool" where
  "is_nan NaN = True"
| "is_nan x = False"

fun py_lt :: "pyfloat \<Rightarrow> pyfloat \<Rightarrow> bool" where
  "py_lt NaN y = False"
| "py_lt x NaN = False"
| "py_lt x NegInf = False"
| "py_lt NegInf y = True"
| "py_lt PosInf y = False"
| "py_lt x PosInf = True"
| "py_lt (Finite a) (Finite b) = (a < b)"

definition py_gt :: "pyfloat \<Rightarrow> pyfloat \<Rightarrow> bool" where
  "py_gt x y = py_lt y x"

definition py_le :: "pyfloat \<Rightarrow> pyfloat \<Rightarrow> bool" where
  "py_le x y = (\<not> is_nan x \<and> \<not> is_nan y \<and> (py_lt x y \<or> x = y))"

subsection \<open>Configuration and constants\<close>

text \<open>
  The thresholds read from the environment by \<^verbatim>\<open>get_env\<close>, and the value of
  \<^verbatim>\<open>os.getenv("GEMINI_API_KEY")\<close>, \<open>None\<close> when the variable is not set.
\<close>

record config =
  DISK_THRESHOLD_PCT :: real
  CPU_THRESHOLD_PCT :: real
  RAM_THRESHOLD_PCT :: real
  LOAD_PER_CORE_THRESHOLD :: real
  FEE_LOW_THRESHOLD :: pyfloat
  FEE_MED_THRESHOLD :: pyfloat
  FEE_HIGH_THRESHOLD :: pyfloat
  PRICE_CHANGE_THRESHOLD_LOW :: real
  PRICE_CHANGE_THRESHOLD_HIGH :: real
  GEMINI_API_KEY :: "string option"

definition ALERT_COOLDOWN :: real where
  "ALERT_COOLDOWN = 300"

definition PERSISTENCE_COUNT :: nat where
  "PERSISTENCE_COUNT = 3"

definition PRICE_VOLATILITY_COOLDOWN :: real where
  "PRICE_VOLATILITY_COOLDOWN = 4 * 3600"

definition MACRO_REPORT_COOLDOWN :: real where
  "MACRO_REPORT_COOLDOWN = 24 * 3600"

definition SURVEILLANCE_INTERVAL :: real where
  "SURVEILLANCE_INTERVAL = 300"

subsection \<open>Market surveillance: data\<close>

text \<open>The values of \<^verbatim>\<open>current_fee_state\<close> and \<^verbatim>\<open>new_fee_state\<close>.\<close>

datatype fee_state = INIT | NORMAL | HIGH | LOW | MEDIUM

datatype magnitude = MAJOR | SIGNIFICANT

text \<open>
  One constructor per message template of \<^verbatim>\<open>surveillance_task\<close>, carrying the
  numbers the template formats.
\<close>

datatype crypto_alert =
    HighFees pyfloat
  | NormalFees pyfloat
  | LowFees pyfloat
  | FeesNormalized pyfloat
  | Impetus magnitude real real real
  | Crash magnitude real real real
  | ContextFollowUp string
  | MacroReport string

fun is_fee_alert :: "crypto_alert \<Rightarrow> bool" where
  "is_fee_alert (HighFees f) = True"
| "is_fee_alert (NormalFees f) = True"
| "is_fee_alert (LowFees f) = True"
| "is_fee_alert (FeesNormalized f) = True"
| "is_fee_alert a = False"

fun is_volatility_alert :: "crypto_alert \<Rightarrow> bool" where
  "is_volatility_alert (Impetus m c p u) = True"
| "is_volatility_alert (Crash m c p u) = True"
| "is_volatility_alert (ContextFollowUp t) = True"
| "is_volatility_alert a = False"

fun is_macro_report :: "crypto_alert \<Rightarrow> bool" where
  "is_macro_report (MacroReport t) = True"
| "is_macro_report a = False"

text \<open>
  The fee dictionary returned by the mempool API is an association list; an entry of
  \<^verbatim>\<open>FEE_HISTORY\<close> is that dictionary with its \<^verbatim>\<open>'time'\<close> stamp, an entry of
  \<^verbatim>\<open>PRICE_HISTORY\<close> is the price dictionary with its stamp.
\<close>

type_synonym fee_dict = "(string \<times> pyfloat) list"

definition dict_get :: "fee_dict \<Rightarrow> string \<Rightarrow> pyfloat \<Rightarrow> pyfloat" where
  "dict_get d k dflt = (case map_of d k of None \<Rightarrow> dflt | Some v \<Rightarrow> v)"

record fee_entry =
  fee_values :: fee_dict
  fee_time :: real

record price_dict =
  eur :: real
  usd :: real

record price_entry =
  entry_eur :: real
  entry_usd :: real
  entry_time :: real

text \<open>The exception that leaves \<^verbatim>\<open>perform_contextual_analysis\<close>.\<close>

datatype error = TypeError

text \<open>
  The module globals and the locals of \<^verbatim>\<open>surveillance_task\<close> that outlive a cycle,
  and the exception that has left the task, if any.
\<close>

record surv_state =
  FEE_HISTORY :: "fee_entry list"
  PRICE_HISTORY :: "price_entry list"
  LAST_VOLATILITY_REFERENCE_USD :: real
  LAST_MACRO_REPORT_TS :: real
  last_fee_alert_ts :: real
  last_price_volatility_alert_ts :: real
  current_fee_state :: fee_state
  raised :: "error option"

definition initial_surv_state :: surv_state where
  "initial_surv_state =
     \<lparr>FEE_HISTORY = [], PRICE_HISTORY = [], LAST_VOLATILITY_REFERENCE_USD = 0,
      LAST_MACRO_REPORT_TS = 0, last_fee_alert_ts = 0,
      last_price_volatility_alert_ts = 0, current_fee_state = INIT, raised = None\<rparr>"

text \<open>
  What one pass of the loop body reads from outside: \<^verbatim>\<open>now\<close>, the result of
  \<^verbatim>\<open>get_fee_data\<close> (\<open>None\<close> on an error) and the two clock readings of
  \<^verbatim>\<open>update_fee_history\<close>, the result of \<^verbatim>\<open>get_price_data\<close> and the two clock
  readings of \<^verbatim>\<open>update_price_history\<close>, and the texts
  \<^verbatim>\<open>perform_contextual_analysis\<close> returns for the volatility query and for the
  macro query when it returns.
\<close>

record cycle_input =
  now :: real
  fees :: "fee_dict option"
  fee_stamp :: real
  fee_prune_clock :: real
  prices :: "price_dict option"
  price_stamp :: real
  price_prune_clock :: real
  volatility_context :: string
  macro_context :: string

subsection \<open>Market surveillance: operations\<close>

definition update_fee_history :: "fee_dict \<Rightarrow> real \<Rightarrow> real \<Rightarrow> surv_state \<Rightarrow> surv_state" where
  "update_fee_history new_fees stamp clock s =
     (let h = FEE_HISTORY s @ [\<lparr>fee_values = new_fees, fee_time = stamp\<rparr>];
          one_hour_ago = clock - 3600
      in s\<lparr>FEE_HISTORY := filter (\<lambda>d. fee_time d > one_hour_ago) h\<rparr>)"

definition update_price_history :: "price_dict \<Rightarrow> real \<Rightarrow> real \<Rightarrow> surv_state \<Rightarrow> surv_state" where
  "update_price_history new_prices stamp clock s =
     (let h = PRICE_HISTORY s @
                [\<lparr>entry_eur = eur new_prices, entry_usd = usd new_prices, entry_time = stamp\<rparr>];
          four_hours_ago = clock - (4 * 3600)
      in s\<lparr>PRICE_HISTORY := filter (\<lambda>d. entry_time d > four_hours_ago) h\<rparr>)"

text \<open>
  Lines 198 to 206: the default \<^verbatim>\<open>"NORMAL"\<close> and the chain of three guarded
  assignments.
\<close>

definition new_fee_state :: "config \<Rightarrow> pyfloat \<Rightarrow> fee_state" where
  "new_fee_state cfg current_fast_fee =
     (if py_gt current_fast_fee (FEE_MED_THRESHOLD cfg) then HIGH
      else if py_le current_fast_fee (FEE_LOW_THRESHOLD cfg) then LOW
      else if py_gt current_fast_fee (FEE_LOW_THRESHOLD cfg)
              \<and> py_le current_fast_fee (FEE_MED_THRESHOLD cfg)
           then MEDIUM
      else NORMAL)"

text \<open>Lines 211 to 222: the message sent for a change of state.\<close>

definition fee_alert :: "fee_state \<Rightarrow> fee_state \<Rightarrow> pyfloat \<Rightarrow> crypto_alert list" where
  "fee_alert new_state cur_state current_fast_fee =
     (if new_state = HIGH then [HighFees current_fast_fee]
      else if new_state = MEDIUM then [NormalFees current_fast_fee]
      else if new_state = LOW then [LowFees current_fast_fee]
      else if new_state = NORMAL then
        (if cur_state \<noteq> NORMAL then [FeesNormalized current_fast_fee] else [])
      else [])"

text \<open>Section 1 of the loop body (lines 192 to 231).\<close>

definition fee_surveillance ::
  "config \<Rightarrow> cycle_input \<Rightarrow> surv_state \<Rightarrow> surv_state \<times> crypto_alert list" where
  "fee_surveillance cfg inp s =
     (case fees inp of
        None \<Rightarrow> (s, [])
      | Some d \<Rightarrow>
          if d = [] then (s, [])
          else
            let s1 = update_fee_history d (fee_stamp inp) (fee_prune_clock inp) s;
                current_fast_fee = dict_get d ''fastestFee'' (Finite 0);
                nfs = new_fee_state cfg current_fast_fee
            in if current_fee_state s1 \<noteq> INIT \<and> nfs \<noteq> current_fee_state s1
                    \<and> now inp - last_fee_alert_ts s1 > ALERT_COOLDOWN
               then (s1\<lparr>current_fee_state := nfs, last_fee_alert_ts := now inp\<rparr>,
                     fee_alert nfs (current_fee_state s1) current_fast_fee)
               else if current_fee_state s1 = INIT
               then (s1\<lparr>current_fee_state := nfs, LAST_MACRO_REPORT_TS := now inp\<rparr>, [])
               else (s1, []))"

text \<open>
  Line 243: \<^verbatim>\<open>next((d for d in price_history if d['time'] < cutoff), None)\<close>, the first
  entry in list order that satisfies the test.
\<close>

definition old_price_data :: "price_entry list \<Rightarrow> real \<Rightarrow> price_entry option" where
  "old_price_data price_history cutoff = find (\<lambda>d. entry_time d < cutoff) price_history"

text \<open>
  Lines 114 and 115 of \<^verbatim>\<open>perform_contextual_analysis\<close>: the concatenation of the
  URL with the key raises \<^verbatim>\<open>TypeError\<close>, outside the \<^verbatim>\<open>try\<close>, when the key is
  \<open>None\<close>. Otherwise the function returns a text, here the second argument: the
  analysis, or the fixed text of a failed request.
\<close>

definition perform_contextual_analysis :: "string option \<Rightarrow> string \<Rightarrow> error + string" where
  "perform_contextual_analysis apiKey answer =
     (case apiKey of None \<Rightarrow> Inl TypeError | Some k \<Rightarrow> Inr answer)"

text \<open>Lines 272 to 285: the first message of a volatility alert.\<close>

definition alert_text :: "config \<Rightarrow> real \<Rightarrow> real \<Rightarrow> real \<Rightarrow> crypto_alert" where
  "alert_text cfg change_abs_usd change_pct current_price_usd =
     (if change_abs_usd > 0
      then Impetus (if change_abs_usd \<ge> PRICE_CHANGE_THRESHOLD_HIGH cfg then MAJOR else SIGNIFICANT)
             change_abs_usd change_pct current_price_usd
      else Crash (if \<bar>change_abs_usd\<bar> \<ge> PRICE_CHANGE_THRESHOLD_HIGH cfg then MAJOR else SIGNIFICANT)
             (- change_abs_usd) (- change_pct) current_price_usd)"

text \<open>
  Lines 248 to 298, entered once an old sample is found and both prices are positive:
  the reset check, the alert condition, the first message, the contextual analysis, the
  follow-up message and the registration of the new reference. When the analysis
  raises, the first message has been sent and the reset has been made, the follow-up
  and the registration are not reached, and the exception leaves the task.
\<close>

definition volatility_evaluation ::
  "config \<Rightarrow> cycle_input \<Rightarrow> real \<Rightarrow> real \<Rightarrow> surv_state \<Rightarrow> surv_state \<times> crypto_alert list" where
  "volatility_evaluation cfg inp current_price_usd old_price_usd s =
     (let change_abs_usd = current_price_usd - old_price_usd;
          change_pct = (change_abs_usd / old_price_usd) * 100;
          s1 = (if LAST_VOLATILITY_REFERENCE_USD s \<noteq> 0
                   \<and> \<bar>current_price_usd - LAST_VOLATILITY_REFERENCE_USD s\<bar>
                       < PRICE_CHANGE_THRESHOLD_LOW cfg / 2
                then s\<lparr>LAST_VOLATILITY_REFERENCE_USD := 0\<rparr> else s);
          is_significant_change = (\<bar>change_abs_usd\<bar> \<ge> PRICE_CHANGE_THRESHOLD_LOW cfg);
          is_alert_needed =
            (current_fee_state s1 \<noteq> INIT \<and> is_significant_change
             \<and> now inp - last_price_volatility_alert_ts s1 > PRICE_VOLATILITY_COOLDOWN
             \<and> LAST_VOLATILITY_REFERENCE_USD s1 = 0)
      in if is_alert_needed
         then (case perform_contextual_analysis (GEMINI_API_KEY cfg) (volatility_context inp) of
                 Inl e \<Rightarrow>
                   (s1\<lparr>raised := Some e\<rparr>,
                    [alert_text cfg change_abs_usd change_pct current_price_usd])
               | Inr context \<Rightarrow>
                   (s1\<lparr>LAST_VOLATILITY_REFERENCE_USD := current_price_usd,
                       last_price_volatility_alert_ts := now inp\<rparr>,
                    [alert_text cfg change_abs_usd change_pct current_price_usd,
                     ContextFollowUp context]))
         else (s1, []))"

text \<open>Section 2 of the loop body (lines 235 to 298).\<close>

definition price_surveillance ::
  "config \<Rightarrow> cycle_input \<Rightarrow> surv_state \<Rightarrow> surv_state \<times> crypto_alert list" where
  "price_surveillance cfg inp s =
     (case prices inp of
        None \<Rightarrow> (s, [])
      | Some p \<Rightarrow>
          let s1 = update_price_history p (price_stamp inp) (price_prune_clock inp) s;
              current_price_usd = usd p;
              one_hundred_twenty_minutes_ago = now inp - (120 * 60)
          in (case old_price_data (PRICE_HISTORY s1) one_hundred_twenty_minutes_ago of
                None \<Rightarrow> (s1, [])
              | Some old \<Rightarrow>
                  if current_price_usd > 0 \<and> entry_usd old > 0
                  then volatility_evaluation cfg inp current_price_usd (entry_usd old) s1
                  else (s1, [])))"

text \<open>
  Section 3 of the loop body (lines 303 to 317), with its novelty filter. When the
  analysis raises, nothing is sent, the timer is not reset, and the exception leaves
  the task.
\<close>

definition macro_surveillance ::
  "config \<Rightarrow> cycle_input \<Rightarrow> surv_state \<Rightarrow> surv_state \<times> crypto_alert list" where
  "macro_surveillance cfg inp s =
     (if current_fee_state s \<noteq> INIT \<and> now inp - LAST_MACRO_REPORT_TS s > MACRO_REPORT_COOLDOWN
      then (case perform_contextual_analysis (GEMINI_API_KEY cfg) (macro_context inp) of
              Inl e \<Rightarrow> (s\<lparr>raised := Some e\<rparr>, [])
            | Inr context \<Rightarrow>
                (s\<lparr>LAST_MACRO_REPORT_TS := now inp\<rparr>,
                 if \<not> sublist ''Contextual Analysis Failed'' context
                    \<and> \<not> sublist ''NESSUN AGGIORNAMENTO MACRO SIGNIFICATIVO'' context
                 then [MacroReport context] else []))
      else (s, []))"

text \<open>
  One pass of the body of \<^verbatim>\<open>while True\<close> in \<^verbatim>\<open>surveillance_task\<close>. An exception
  raised in section 2 skips section 3.
\<close>

definition surveillance_cycle ::
  "config \<Rightarrow> cycle_input \<Rightarrow> surv_state \<Rightarrow> surv_state \<times> crypto_alert list" where
  "surveillance_cycle cfg inp s =
     (let (s1, a1) = fee_surveillance cfg inp s;
          (s2, a2) = price_surveillance cfg inp s1
      in if raised s2 \<noteq> None then (s2, a1 @ a2)
         else let (s3, a3) = macro_surveillance cfg inp s2
              in (s3, a1 @ a2 @ a3))"

text \<open>
  The loop over the cycles of a run, collecting every alert sent. The loop has no
  \<^verbatim>\<open>try\<close>: a pass that raises is the last one.
\<close>

fun surveillance_task ::
  "config \<Rightarrow> cycle_input list \<Rightarrow> surv_state \<Rightarrow> surv_state \<times> crypto_alert list" where
  "surveillance_task cfg [] s = (s, [])"
| "surveillance_task cfg (inp # rest) s =
     (let (s1, a1) = surveillance_cycle cfg inp s
      in if raised s1 \<noteq> None then (s1, a1)
         else let (s2, a2) = surveillance_task cfg rest s1
              in (s2, a1 @ a2))"

text \<open>
  The clock readings of a run. Every pass ends in
  \<^verbatim>\<open>asyncio.sleep(SURVEILLANCE_INTERVAL)\<close> (line 319), so the reading
  \<^verbatim>\<open>now\<close> of a pass is more than \<open>SURVEILLANCE_INTERVAL\<close> seconds after the
  one of the previous pass; \<open>spaced t\<close> says so for a run that follows a reading
  \<open>t\<close>, and \<open>last_clock\<close> is the last reading of the run.
\<close>

fun spaced :: "real \<Rightarrow> cycle_input list \<Rightarrow> bool" where
  "spaced t [] = True"
| "spaced t (inp # rest) = (now inp > t + SURVEILLANCE_INTERVAL \<and> spaced (now inp) rest)"

fun last_clock :: "real \<Rightarrow> cycle_input list \<Rightarrow> real" where
  "last_clock t [] = t"
| "last_clock t (inp # rest) = last_clock (now inp) rest"

subsection \<open>Remote hardware monitoring\<close>

text \<open>
  The sample of \<^verbatim>\<open>get_remote_system_status\<close> as far as the alert logic reads it,
  and one entry of the alert list of \<^verbatim>\<open>get_remote_disk_status\<close>.
\<close>

record remote_data =
  cpu_pct :: real
  ram_pct :: real
  load1 :: real
  cores :: real

type_synonym disk_alert_data = "string \<times> int \<times> int"

datatype sys_alert =
    CpuRecovery real
  | CpuNode real
  | RamRecovery real
  | RamNode real
  | LoadRecovery real
  | LoadNode real real
  | DiskNode string int int

text \<open>
  The three locals kept for each watched quantity: for the CPU
  \<^verbatim>\<open>cpu_high_count\<close>, \<^verbatim>\<open>is_cpu_alert_active\<close> and \<^verbatim>\<open>last_remote_cpu_alert\<close>,
  and the same three for RAM and load.
\<close>

record debouncer =
  high_count :: nat
  is_alert_active :: bool
  last_alert :: real

definition initial_debouncer :: debouncer where
  "initial_debouncer = \<lparr>high_count = 0, is_alert_active = False, last_alert = 0\<rparr>"

datatype debounce_event = Recovery | Rising

text \<open>
  Lines 394 to 405 for the CPU, repeated word for word at lines 409 to 420 for RAM and
  at lines 425 to 436 for the load per core: the counter update with the recovery
  message, then the rising alert.
\<close>

definition debounce :: "real \<Rightarrow> real \<Rightarrow> real \<Rightarrow> debouncer \<Rightarrow> debouncer \<times> debounce_event list" where
  "debounce threshold v now_ts d =
     (let (d1, a1) =
            (if v \<ge> threshold then (d\<lparr>high_count := high_count d + 1\<rparr>, [])
             else if is_alert_active d
                  then (d\<lparr>high_count := 0, is_alert_active := False\<rparr>, [Recovery])
                  else (d\<lparr>high_count := 0\<rparr>, []))
      in if high_count d1 \<ge> PERSISTENCE_COUNT \<and> \<not> is_alert_active d1
              \<and> now_ts - last_alert d1 > ALERT_COOLDOWN
         then (d1\<lparr>is_alert_active := True, last_alert := now_ts\<rparr>, a1 @ [Rising])
         else (d1, a1))"

text \<open>A debouncer fed a sequence of samples, each with the clock reading of its cycle.\<close>

fun debounce_run ::
  "real \<Rightarrow> (real \<times> real) list \<Rightarrow> debouncer \<Rightarrow> debouncer \<times> debounce_event list list" where
  "debounce_run threshold [] d = (d, [])"
| "debounce_run threshold ((now_ts, v) # rest) d =
     (let (d1, a1) = debounce threshold v now_ts d;
          (d2, as) = debounce_run threshold rest d1
      in (d2, a1 # as))"

text \<open>Line 443: the cooldown key of a mount, \<^verbatim>\<open>f"remote_{mount}"\<close>.\<close>

definition remote_key :: "string \<Rightarrow> string" where
  "remote_key mount = ''remote_'' @ mount"

text \<open>The alerts of a debouncer over a sequence of samples, each with its clock reading.\<close>

fun debounce_trace :: "real \<Rightarrow> (real \<times> real) list \<Rightarrow> debouncer \<Rightarrow> (real \<times> debounce_event) list" where
  "debounce_trace threshold [] d = []"
| "debounce_trace threshold ((now_ts, v) # rest) d =
     map (Pair now_ts) (snd (debounce threshold v now_ts d))
     @ debounce_trace threshold rest (fst (debounce threshold v now_ts d))"

text \<open>Lines 442 to 448: the loop over the disk alerts with the cooldown per mount.\<close>

fun disk_monitoring ::
  "real \<Rightarrow> disk_alert_data list \<Rightarrow> (string \<rightharpoonup> real) \<Rightarrow> (string \<rightharpoonup> real) \<times> sys_alert list" where
  "disk_monitoring now_ts [] last_remote_disk_alert = (last_remote_disk_alert, [])"
| "disk_monitoring now_ts ((mount, pct, used) # rest) last_remote_disk_alert =
     (let key = remote_key mount;
          ts = (case last_remote_disk_alert key of None \<Rightarrow> 0 | Some t \<Rightarrow> t)
      in if now_ts - ts > ALERT_COOLDOWN
         then (let (m, as) = disk_monitoring now_ts rest (last_remote_disk_alert(key \<mapsto> now_ts))
               in (m, DiskNode mount pct used # as))
         else disk_monitoring now_ts rest last_remote_disk_alert)"

record sys_state =
  last_remote_disk_alert :: "string \<rightharpoonup> real"
  cpu :: debouncer
  ram :: debouncer
  load :: debouncer

definition initial_sys_state :: sys_state where
  "initial_sys_state =
     \<lparr>last_remote_disk_alert = Map.empty, cpu = initial_debouncer,
      ram = initial_debouncer, load = initial_debouncer\<rparr>"

record sys_input =
  sys_now :: real
  remote_status :: "remote_data option"
  remote_alerts :: "disk_alert_data list"

fun cpu_message :: "real \<Rightarrow> debounce_event \<Rightarrow> sys_alert" where
  "cpu_message v Recovery = CpuRecovery v"
| "cpu_message v Rising = CpuNode v"

fun ram_message :: "real \<Rightarrow> debounce_event \<Rightarrow> sys_alert" where
  "ram_message v Recovery = RamRecovery v"
| "ram_message v Rising = RamNode v"

fun load_message :: "real \<Rightarrow> real \<Rightarrow> debounce_event \<Rightarrow> sys_alert" where
  "load_message l lpc Recovery = LoadRecovery l"
| "load_message l lpc Rising = LoadNode l lpc"

text \<open>
  Section 1 of the loop body of \<^verbatim>\<open>monitor_system_task\<close> (lines 387 to 448). A sample
  with an \<^verbatim>\<open>"error"\<close> entry is \<open>None\<close> and skips the section. The division by
  \<^verbatim>\<open>cores\<close> raises when it is zero, which leaves the section after the CPU and RAM
  blocks; \<^verbatim>\<open>get_remote_system_status\<close> always sets it to 2. Section 2 of the loop
  body, the service status, is not modelled.
\<close>

definition hardware_monitoring :: "config \<Rightarrow> sys_input \<Rightarrow> sys_state \<Rightarrow> sys_state \<times> sys_alert list" where
  "hardware_monitoring cfg inp s =
     (case remote_status inp of
        None \<Rightarrow> (s, [])
      | Some rd \<Rightarrow>
          let (c, ca) = debounce (CPU_THRESHOLD_PCT cfg) (cpu_pct rd) (sys_now inp) (cpu s);
              (r, ra) = debounce (RAM_THRESHOLD_PCT cfg) (ram_pct rd) (sys_now inp) (ram s);
              s1 = s\<lparr>cpu := c, ram := r\<rparr>;
              a1 = map (cpu_message (cpu_pct rd)) ca @ map (ram_message (ram_pct rd)) ra
          in if cores rd = 0 then (s1, a1)
             else
               let load1_per_core = load1 rd / cores rd;
                   (l, la) = debounce (LOAD_PER_CORE_THRESHOLD cfg) load1_per_core (sys_now inp) (load s1);
                   (m, da) = disk_monitoring (sys_now inp) (remote_alerts inp) (last_remote_disk_alert s1)
               in (s1\<lparr>load := l, last_remote_disk_alert := m\<rparr>,
                   a1 @ map (load_message (load1 rd) load1_per_core) la @ da))"

text \<open>
  The loop of \<^verbatim>\<open>monitor_system_task\<close> over the cycles of a run, with the alerts of
  each cycle.
\<close>

fun monitor_system_task ::
  "config \<Rightarrow> sys_input list \<Rightarrow> sys_state \<Rightarrow> sys_state \<times> sys_alert list list" where
  "monitor_system_task cfg [] s = (s, [])"
| "monitor_system_task cfg (inp # rest) s =
     (let (s1, a1) = hardware_monitoring cfg inp s;
          (s2, as) = monitor_system_task cfg rest s1
      in (s2, a1 # as))"



subsection \<open>LND monitoring: set differences\<close>

text \<open>
  Lines 510 and 511 for the peers and lines 528 and 529 for the channels: the new and
  the removed identifiers of a snapshot against the previous one.
\<close>

definition set_diff :: "'a set \<Rightarrow> 'a set \<Rightarrow> 'a set \<times> 'a set" where
  "set_diff prev cur = (cur - prev, prev - cur)"

datatype lnd_alert =
    NewPeerConnected string
  | PeerDisconnected string
  | ChannelOpened string
  | ChannelClosed string

text \<open>
  The peers block and the channels block of one cycle of \<^verbatim>\<open>monitor_lnd_task\<close>: the
  alerts (a set, as Python iterates a set in no fixed order) and the snapshot kept.
\<close>

definition peers_check :: "string set \<Rightarrow> string set \<Rightarrow> string set \<times> lnd_alert set" where
  "peers_check prev_peers cur_peers =
     (let (new, removed) = set_diff prev_peers cur_peers
      in (cur_peers, NewPeerConnected ` new \<union> PeerDisconnected ` removed))"

definition channels_check :: "string set \<Rightarrow> string set \<Rightarrow> string set \<times> lnd_alert set" where
  "channels_check prev_channels cur_ch =
     (let (newch, closed) = set_diff prev_channels cur_ch
      in (cur_ch, ChannelOpened ` newch \<union> ChannelClosed ` closed))"

subsection \<open>The 120-minute lookback as the specification words it\<close>

text \<open>
  The specification's wording of the lookup, for comparison with \<open>old_price_data\<close>:
  among the samples older than the cutoff, the one with the latest stamp.
\<close>

definition most_recent_older_spec :: "price_entry list \<Rightarrow> real \<Rightarrow> price_entry option" where
  "most_recent_older_spec price_history cutoff =
     (case filter (\<lambda>d. entry_time d < cutoff) price_history of
        [] \<Rightarrow> None
      | x # xs \<Rightarrow> Some (fold (\<lambda>d best. if entry_time d \<ge> entry_time best then d else best) xs x))"

subsection \<open>Concrete configurations, states and inputs\<close>

definition example_config :: config where
  "example_config =
     \<lparr>DISK_THRESHOLD_PCT = 90, CPU_THRESHOLD_PCT = 80, RAM_THRESHOLD_PCT = 85,
      LOAD_PER_CORE_THRESHOLD = 2, FEE_LOW_THRESHOLD = Finite 5,
      FEE_MED_THRESHOLD = Finite 10, FEE_HIGH_THRESHOLD = Finite 20,
      PRICE_CHANGE_THRESHOLD_LOW = 1000, PRICE_CHANGE_THRESHOLD_HIGH = 3000,
      GEMINI_API_KEY = Some ''key''\<rparr>"

definition example_input :: "real \<Rightarrow> fee_dict option \<Rightarrow> price_dict option \<Rightarrow> cycle_input" where
  "example_input t f p =
     \<lparr>now = t, fees = f, fee_stamp = t, fee_prune_clock = t, prices = p,
      price_stamp = t, price_prune_clock = t, volatility_context = ''context'',
      macro_context = ''report''\<rparr>"

text \<open>A hardware sample with the given CPU percentage and disk alerts; RAM and load are low.\<close>

definition example_sys_input :: "real \<Rightarrow> real \<Rightarrow> disk_alert_data list \<Rightarrow> sys_input" where
  "example_sys_input t c disks =
     \<lparr>sys_now = t,
      remote_status = Some \<lparr>cpu_pct = c, ram_pct = 40, load1 = 1 / 2, cores = 2\<rparr>,
      remote_alerts = disks\<rparr>"

text \<open>A task whose fee fetch has never succeeded, with one price sample in its history.\<close>

definition failing_fee_history_state :: surv_state where
  "failing_fee_history_state =
     initial_surv_state\<lparr>PRICE_HISTORY :=
       [\<lparr>entry_eur = 45000, entry_usd = 50000, entry_time = 90000\<rparr>]\<rparr>"

text \<open>A task with two price samples an hour apart, both older than 120 minutes at clock 112000.\<close>

definition two_sample_state :: surv_state where
  "two_sample_state =
     initial_surv_state\<lparr>PRICE_HISTORY :=
         [\<lparr>entry_eur = 45000, entry_usd = 50000, entry_time = 100000\<rparr>,
          \<lparr>entry_eur = 54000, entry_usd = 60000, entry_time = 103600\<rparr>],
       current_fee_state := LOW\<rparr>"




text \<open>The configuration with \<^verbatim>\<open>FEE_MED_THRESHOLD=nan\<close> in the environment.\<close>

definition nan_medium_config :: config where
  "nan_medium_config = example_config\<lparr>FEE_MED_THRESHOLD := NaN\<rparr>"

subsection \<open>Predicates on alert traces\<close>

text \<open>The first of the two messages of a volatility alert.\<close>

definition is_primary_volatility_alert :: "crypto_alert \<Rightarrow> bool" where
  "is_primary_volatility_alert a =
     (case a of Impetus m c p u \<Rightarrow> True | Crash m c p u \<Rightarrow> True | _ \<Rightarrow> False)"

text \<open>
  A trace of debouncer events alternates: a rising alert only when none is active, a
  recovery only when one is.
\<close>

fun alternating :: "bool \<Rightarrow> debounce_event list \<Rightarrow> bool" where
  "alternating active [] = True"
| "alternating active (Rising # es) = (\<not> active \<and> alternating True es)"
| "alternating active (Recovery # es) = (active \<and> alternating False es)"

fun is_cpu_alert :: "sys_alert \<Rightarrow> bool" where
  "is_cpu_alert (CpuRecovery v) = True"
| "is_cpu_alert (CpuNode v) = True"
| "is_cpu_alert a = False"

text \<open>
  Read off the samples and the alerts sent so far: the length of the unbroken run of
  samples at or over the threshold that ends the sequence, whether the last alert sent
  is a rising one, and the clock of the last rising alert (0 when there is none).
\<close>

definition consecutive_over :: "real \<Rightarrow> (real \<times> real) list \<Rightarrow> nat" where
  "consecutive_over threshold xs = length (takeWhile (\<lambda>(t, v). v \<ge> threshold) (rev xs))"

definition alert_in_force :: "(real \<times> debounce_event) list \<Rightarrow> bool" where
  "alert_in_force tr = (tr \<noteq> [] \<and> snd (last tr) = Rising)"

definition last_rising_time :: "(real \<times> debounce_event) list \<Rightarrow> real" where
  "last_rising_time tr =
     (let rs = filter (\<lambda>(t, e). e = Rising) tr in if rs = [] then 0 else fst (last rs))"

text \<open>The time \<^verbatim>\<open>last_remote_disk_alert.get(key, 0)\<close> of a mount.\<close>

definition last_fired :: "(string \<rightharpoonup> real) \<Rightarrow> string \<Rightarrow> real" where
  "last_fired m mount = (case m (remote_key mount) of None \<Rightarrow> 0 | Some t \<Rightarrow> t)"



section \<open>Properties of the market surveillance\<close>

subsection \<open>Comparisons of floats\<close>

lemma py_total: "\<not> is_nan x \<Longrightarrow> \<not> is_nan y \<Longrightarrow> py_gt x y \<or> py_le x y"
  by (cases x; cases y) (auto simp: py_gt_def py_le_def)

lemma py_nan [simp]:
  "\<not> py_gt NaN y" "\<not> py_gt x NaN" "\<not> py_le NaN y" "\<not> py_le x NaN"
  by (cases x; cases y; simp add: py_gt_def py_le_def)+

lemma is_nan_iff: "is_nan x \<longleftrightarrow> x = NaN"
  by (cases x) simp_all

lemma new_fee_state_NORMAL_iff:
  "new_fee_state cfg f = NORMAL \<longleftrightarrow>
     is_nan f
     \<or> (is_nan (FEE_MED_THRESHOLD cfg) \<and> \<not> py_le f (FEE_LOW_THRESHOLD cfg))
     \<or> (is_nan (FEE_LOW_THRESHOLD cfg) \<and> \<not> py_gt f (FEE_MED_THRESHOLD cfg))"
proof (cases "is_nan f \<or> is_nan (FEE_MED_THRESHOLD cfg) \<or> is_nan (FEE_LOW_THRESHOLD cfg)")
  case True
  then show ?thesis by (auto simp: new_fee_state_def is_nan_iff)
next
  case False
  then show ?thesis
    using py_total [of f "FEE_MED_THRESHOLD cfg"] py_total [of f "FEE_LOW_THRESHOLD cfg"]
    by (auto simp: new_fee_state_def)
qed

subsection \<open>Auxiliary facts\<close>

lemma new_fee_state_not_INIT: "new_fee_state cfg f \<noteq> INIT"
  by (simp add: new_fee_state_def)

lemma fee_alert_change:
  "new_fee_state cfg f \<noteq> cur \<Longrightarrow> fee_alert (new_fee_state cfg f) cur f \<noteq> []"
  using new_fee_state_not_INIT [of cfg f]
  by (cases "new_fee_state cfg f") (auto simp: fee_alert_def)

lemma fee_alert_normalized:
  "FeesNormalized x \<in> set (fee_alert nfs cur f) \<Longrightarrow> nfs = NORMAL"
  by (auto simp: fee_alert_def split: if_splits)

lemma fee_surveillance_INIT:
  "current_fee_state s = INIT \<Longrightarrow> snd (fee_surveillance cfg inp s) = []"
  by (simp add: fee_surveillance_def update_fee_history_def Let_def split: option.splits)

lemma fee_surveillance_INIT_state:
  "current_fee_state s = INIT \<Longrightarrow> fees inp = Some d \<Longrightarrow> d \<noteq> [] \<Longrightarrow>
   current_fee_state (fst (fee_surveillance cfg inp s))
     = new_fee_state cfg (dict_get d ''fastestFee'' (Finite 0))"
  by (simp add: fee_surveillance_def update_fee_history_def Let_def)

lemma fee_surveillance_failed:
  "fees inp = None \<or> fees inp = Some [] \<Longrightarrow> fee_surveillance cfg inp s = (s, [])"
  by (auto simp: fee_surveillance_def)

lemma alert_text_kind:
  "is_volatility_alert (alert_text cfg c p u)"
  "is_primary_volatility_alert (alert_text cfg c p u)"
  by (simp_all add: alert_text_def is_primary_volatility_alert_def)

lemma volatility_evaluation_kind:
  "a \<in> set (snd (volatility_evaluation cfg inp c p s)) \<Longrightarrow> is_volatility_alert a"
  by (auto simp: volatility_evaluation_def Let_def alert_text_kind
        split: if_splits sum.splits)

lemma price_surveillance_kind:
  "a \<in> set (snd (price_surveillance cfg inp s)) \<Longrightarrow> is_volatility_alert a"
  by (auto simp: price_surveillance_def Let_def dest: volatility_evaluation_kind
        split: option.splits if_splits)

lemma macro_surveillance_kind:
  "a \<in> set (snd (macro_surveillance cfg inp s)) \<Longrightarrow> is_macro_report a"
  by (auto simp: macro_surveillance_def split: if_splits sum.splits)

lemma kinds_disjoint:
  "is_volatility_alert a \<Longrightarrow> \<not> is_fee_alert a"
  "is_macro_report a \<Longrightarrow> \<not> is_fee_alert a"
  by (cases a; simp)+

lemma surveillance_cycle_alerts:
  "snd (surveillance_cycle cfg inp s) =
     snd (fee_surveillance cfg inp s)
     @ snd (price_surveillance cfg inp (fst (fee_surveillance cfg inp s)))
     @ (if raised (fst (price_surveillance cfg inp (fst (fee_surveillance cfg inp s)))) \<noteq> None
        then []
        else snd (macro_surveillance cfg inp
                   (fst (price_surveillance cfg inp (fst (fee_surveillance cfg inp s))))))"
  by (simp add: surveillance_cycle_def split: prod.splits)

lemma surveillance_cycle_state:
  "fst (surveillance_cycle cfg inp s) =
     (if raised (fst (price_surveillance cfg inp (fst (fee_surveillance cfg inp s)))) \<noteq> None
      then fst (price_surveillance cfg inp (fst (fee_surveillance cfg inp s)))
      else fst (macro_surveillance cfg inp
                 (fst (price_surveillance cfg inp (fst (fee_surveillance cfg inp s))))))"
  by (simp add: surveillance_cycle_def split: prod.splits)

lemma surveillance_task_alerts_Cons:
  "snd (surveillance_task cfg (inp # rest) s) =
     snd (surveillance_cycle cfg inp s)
     @ (if raised (fst (surveillance_cycle cfg inp s)) \<noteq> None then []
        else snd (surveillance_task cfg rest (fst (surveillance_cycle cfg inp s))))"
  by (simp split: prod.splits)

lemma surveillance_task_state_Cons:
  "fst (surveillance_task cfg (inp # rest) s) =
     (if raised (fst (surveillance_cycle cfg inp s)) \<noteq> None
      then fst (surveillance_cycle cfg inp s)
      else fst (surveillance_task cfg rest (fst (surveillance_cycle cfg inp s))))"
  by (simp split: prod.splits)

subsection \<open>The first fee evaluation\<close>

text \<open>
  Claim C1. When the fee state is \<open>INIT\<close>, the fee section of a cycle sends nothing,
  whatever the sampled fee is; no fee message appears among the alerts of the whole
  cycle; and after a successful fetch the state is the level computed from the sample.
\<close>

theorem first_fee_evaluation_silent:
  assumes "current_fee_state s = INIT"
  shows "snd (fee_surveillance cfg inp s) = []
       \<and> (\<forall>a \<in> set (snd (surveillance_cycle cfg inp s)). \<not> is_fee_alert a)
       \<and> (\<forall>d. fees inp = Some d \<and> d \<noteq> [] \<longrightarrow>
            current_fee_state (fst (fee_surveillance cfg inp s))
              = new_fee_state cfg (dict_get d ''fastestFee'' (Finite 0)))"
proof -
  have quiet: "snd (fee_surveillance cfg inp s) = []"
    using assms by (rule fee_surveillance_INIT)
  have "\<not> is_fee_alert a" if "a \<in> set (snd (surveillance_cycle cfg inp s))" for a
    using that quiet
    by (auto simp: surveillance_cycle_alerts split: if_splits
          dest: price_surveillance_kind macro_surveillance_kind kinds_disjoint)
  moreover have "current_fee_state (fst (fee_surveillance cfg inp s))
              = new_fee_state cfg (dict_get d ''fastestFee'' (Finite 0))"
    if "fees inp = Some d" "d \<noteq> []" for d
    using assms that by (rule fee_surveillance_INIT_state)
  ultimately show ?thesis using quiet by blast
qed

theorem first_fee_evaluation_silent_witness:
  "current_fee_state initial_surv_state = INIT
   \<and> snd (fee_surveillance example_config
            (example_input 1000 (Some [(''fastestFee'', Finite 50)]) None) initial_surv_state) = []
   \<and> current_fee_state (fst (fee_surveillance example_config
            (example_input 1000 (Some [(''fastestFee'', Finite 50)]) None) initial_surv_state)) = HIGH"
proof -
  have h: "current_fee_state initial_surv_state = INIT"
    by (simp add: initial_surv_state_def)
  have f: "fees (example_input 1000 (Some [(''fastestFee'', Finite 50)]) None)
             = Some [(''fastestFee'', Finite 50)]"
    by (simp add: example_input_def)
  have n: "new_fee_state example_config (dict_get [(''fastestFee'', Finite 50)] ''fastestFee'' (Finite 0)) = HIGH"
    by (simp add: new_fee_state_def example_config_def dict_get_def py_gt_def)
  from first_fee_evaluation_silent [OF h, of example_config
        "example_input 1000 (Some [(''fastestFee'', Finite 50)]) None"] f n h
  show ?thesis by simp
qed

subsection \<open>The classification of a fee\<close>

lemma fee_surveillance_normalized:
  assumes "FeesNormalized x \<in> set (snd (fee_surveillance cfg inp s))"
  shows "\<exists>d. fees inp = Some d \<and> new_fee_state cfg (dict_get d ''fastestFee'' (Finite 0)) = NORMAL"
  using assms
  by (auto simp: fee_surveillance_def Let_def split: option.splits if_splits
        dest: fee_alert_normalized)

lemma surveillance_cycle_normalized:
  assumes "FeesNormalized x \<in> set (snd (surveillance_cycle cfg inp s))"
  shows "\<exists>d. fees inp = Some d \<and> new_fee_state cfg (dict_get d ''fastestFee'' (Finite 0)) = NORMAL"
proof -
  from assms consider "FeesNormalized x \<in> set (snd (fee_surveillance cfg inp s))"
    | s' where "FeesNormalized x \<in> set (snd (price_surveillance cfg inp s'))"
    | s' where "FeesNormalized x \<in> set (snd (macro_surveillance cfg inp s'))"
    by (auto simp: surveillance_cycle_alerts split: if_splits)
  then show ?thesis
  proof cases
    case 1
    then show ?thesis by (rule fee_surveillance_normalized)
  next
    case 2
    then show ?thesis using price_surveillance_kind by fastforce
  next
    case 3
    then show ?thesis using macro_surveillance_kind by fastforce
  qed
qed

lemma surveillance_task_normalized:
  "FeesNormalized x \<in> set (snd (surveillance_task cfg inps s)) \<Longrightarrow>
   \<exists>inp \<in> set inps. \<exists>d. fees inp = Some d
      \<and> new_fee_state cfg (dict_get d ''fastestFee'' (Finite 0)) = NORMAL"
proof (induction inps arbitrary: s)
  case Nil
  then show ?case by simp
next
  case (Cons inp rest)
  from Cons.prems consider "FeesNormalized x \<in> set (snd (surveillance_cycle cfg inp s))"
    | "FeesNormalized x \<in> set (snd (surveillance_task cfg rest (fst (surveillance_cycle cfg inp s))))"
    unfolding surveillance_task_alerts_Cons by (auto split: if_splits)
  then show ?case
  proof cases
    case 1
    then show ?thesis using surveillance_cycle_normalized by fastforce
  next
    case 2
    then show ?thesis using Cons.IH by fastforce
  qed
qed

text \<open>
  Claim C2 as stated fails when a threshold is NaN, a value \<^verbatim>\<open>float()\<close> accepts
  from the environment: with \<^verbatim>\<open>FEE_MED_THRESHOLD=nan\<close> and a low threshold of 5, a
  fee of 8 satisfies none of the three guards and the level stays \<open>NORMAL\<close>; the task
  being in state \<open>LOW\<close> after a first sample of 3, the pass that samples 8 sends the
  "fees normalized" message.
\<close>

theorem fees_normalized_sent_with_nan_threshold:
  "new_fee_state nan_medium_config (Finite 8) = NORMAL
   \<and> snd (surveillance_task nan_medium_config
        [example_input 1700000000 (Some [(''fastestFee'', Finite 3)]) None,
         example_input 1700000301 (Some [(''fastestFee'', Finite 8)]) None]
        initial_surv_state) = [FeesNormalized (Finite 8)]"
  by (simp add: nan_medium_config_def example_config_def new_fee_state_def py_gt_def py_le_def
        surveillance_cycle_def fee_surveillance_def price_surveillance_def
        macro_surveillance_def update_fee_history_def example_input_def initial_surv_state_def
        dict_get_def fee_alert_def ALERT_COOLDOWN_def MACRO_REPORT_COOLDOWN_def Let_def)

text \<open>
  Claim C2, amended. The computed level is the default \<open>NORMAL\<close> exactly when the fee
  is NaN, or the medium threshold is NaN and the fee is not at or below the low
  threshold, or the low threshold is NaN and the fee is not above the medium threshold.
  So for a fee and thresholds that are not NaN the three guarded branches are
  exhaustive; and in a run whose low and medium thresholds and whose fee samples are not
  NaN the "fees normalized" message is never sent.
\<close>

theorem fee_branches_exhaustive_without_nan:
  "(new_fee_state cfg f = NORMAL \<longleftrightarrow>
      is_nan f
      \<or> (is_nan (FEE_MED_THRESHOLD cfg) \<and> \<not> py_le f (FEE_LOW_THRESHOLD cfg))
      \<or> (is_nan (FEE_LOW_THRESHOLD cfg) \<and> \<not> py_gt f (FEE_MED_THRESHOLD cfg)))
   \<and> (\<not> is_nan (FEE_LOW_THRESHOLD cfg) \<and> \<not> is_nan (FEE_MED_THRESHOLD cfg)
        \<and> (\<forall>inp \<in> set inps. \<forall>d. fees inp = Some d
              \<longrightarrow> \<not> is_nan (dict_get d ''fastestFee'' (Finite 0)))
      \<longrightarrow> FeesNormalized x \<notin> set (snd (surveillance_task cfg inps s)))"
proof -
  have "FeesNormalized x \<notin> set (snd (surveillance_task cfg inps s))"
    if "\<not> is_nan (FEE_LOW_THRESHOLD cfg)" "\<not> is_nan (FEE_MED_THRESHOLD cfg)"
      "\<forall>inp \<in> set inps. \<forall>d. fees inp = Some d
              \<longrightarrow> \<not> is_nan (dict_get d ''fastestFee'' (Finite 0))"
  proof
    assume "FeesNormalized x \<in> set (snd (surveillance_task cfg inps s))"
    then obtain inp d where "inp \<in> set inps" "fees inp = Some d"
      "new_fee_state cfg (dict_get d ''fastestFee'' (Finite 0)) = NORMAL"
      using surveillance_task_normalized by blast
    then show False using that by (auto simp: new_fee_state_NORMAL_iff)
  qed
  then show ?thesis using new_fee_state_NORMAL_iff by blast
qed

theorem fee_branches_exhaustive_without_nan_witness:
  "\<not> is_nan (FEE_LOW_THRESHOLD example_config)
   \<and> \<not> is_nan (FEE_MED_THRESHOLD example_config)
   \<and> \<not> is_nan (Finite 3) \<and> \<not> is_nan (Finite 8)
   \<and> new_fee_state example_config (Finite 8) \<noteq> NORMAL
   \<and> FeesNormalized (Finite 8) \<notin> set (snd (surveillance_task example_config
        [example_input 1700000000 (Some [(''fastestFee'', Finite 3)]) None,
         example_input 1700000301 (Some [(''fastestFee'', Finite 8)]) None]
        initial_surv_state))"
proof -
  let ?inps = "[example_input 1700000000 (Some [(''fastestFee'', Finite 3)]) None,
         example_input 1700000301 (Some [(''fastestFee'', Finite 8)]) None]"
  have t: "\<not> is_nan (FEE_LOW_THRESHOLD example_config)"
    "\<not> is_nan (FEE_MED_THRESHOLD example_config)"
    by (simp_all add: example_config_def)
  have f: "\<forall>inp \<in> set ?inps. \<forall>d. fees inp = Some d
              \<longrightarrow> \<not> is_nan (dict_get d ''fastestFee'' (Finite 0))"
    by (simp add: example_input_def dict_get_def)
  have n: "\<not> is_nan (Finite 8) \<and> \<not> py_le (Finite 8) (FEE_LOW_THRESHOLD example_config)"
    by (simp add: example_config_def py_le_def)
  from fee_branches_exhaustive_without_nan [of example_config "Finite 8" ?inps "Finite 8"
         initial_surv_state] t f n
  show ?thesis by simp
qed

subsection \<open>The lookback sample\<close>

lemma old_price_data_first:
  "old_price_data h c = Some d \<longleftrightarrow>
     (\<exists>i < length h. h ! i = d \<and> entry_time d < c \<and> (\<forall>j < i. \<not> entry_time (h ! j) < c))"
  by (auto simp: old_price_data_def find_Some_iff)

lemma old_price_data_None:
  "old_price_data h c = None \<longleftrightarrow> (\<forall>d \<in> set h. \<not> entry_time d < c)"
  by (auto simp: old_price_data_def find_None_iff)

lemma no_old_sample_no_evaluation:
  "prices inp = Some p \<Longrightarrow>
   \<forall>d \<in> set (PRICE_HISTORY (update_price_history p (price_stamp inp) (price_prune_clock inp) s)).
      \<not> entry_time d < now inp - 120 * 60 \<Longrightarrow>
   price_surveillance cfg inp s
     = (update_price_history p (price_stamp inp) (price_prune_clock inp) s, [])"
  by (simp add: price_surveillance_def Let_def old_price_data_None [THEN iffD2])

lemma two_sample_history:
  "PRICE_HISTORY (update_price_history \<lparr>eur = 54090, usd = 60100\<rparr> 112001 112001 two_sample_state)
   = [\<lparr>entry_eur = 45000, entry_usd = 50000, entry_time = 100000\<rparr>,
      \<lparr>entry_eur = 54000, entry_usd = 60000, entry_time = 103600\<rparr>,
      \<lparr>entry_eur = 54090, entry_usd = 60100, entry_time = 112001\<rparr>]"
  by (simp add: update_price_history_def two_sample_state_def initial_surv_state_def Let_def)

text \<open>
  Claim C3. The sample compared with the current price is the first entry of the
  history, in list order, that is older than 120 minutes (\<open>old_price_data_first\<close>);
  the history grows at its end, so this is the oldest such sample, not the most recent
  one. At clock 112000, with samples of 50000 USD at 100000 and 60000 USD at 103600 and
  a current price of 60100 USD, the code compares with the sample of 100000 and reports
  a rise of 10100 USD; the most recent sample older than 120 minutes is the one of
  103600, against which the change is 100 USD.
\<close>

theorem old_sample_is_oldest_not_most_recent:
  "old_price_data
      (PRICE_HISTORY
         (update_price_history \<lparr>eur = 54090, usd = 60100\<rparr> 112001 112001 two_sample_state))
      (112000 - 120 * 60)
     = Some \<lparr>entry_eur = 45000, entry_usd = 50000, entry_time = 100000\<rparr>
   \<and> most_recent_older_spec
      (PRICE_HISTORY
         (update_price_history \<lparr>eur = 54090, usd = 60100\<rparr> 112001 112001 two_sample_state))
      (112000 - 120 * 60)
     = Some \<lparr>entry_eur = 54000, entry_usd = 60000, entry_time = 103600\<rparr>
   \<and> snd (price_surveillance example_config
        \<lparr>now = 112000, fees = None, fee_stamp = 112000, fee_prune_clock = 112000,
         prices = Some \<lparr>eur = 54090, usd = 60100\<rparr>, price_stamp = 112001,
         price_prune_clock = 112001, volatility_context = ''context'',
         macro_context = ''report''\<rparr> two_sample_state)
     = [Impetus MAJOR 10100 (101 / 5) 60100, ContextFollowUp ''context'']"
  by (simp add: two_sample_history old_price_data_def most_recent_older_spec_def
       price_surveillance_def volatility_evaluation_def alert_text_def
       perform_contextual_analysis_def example_config_def Let_def PRICE_VOLATILITY_COOLDOWN_def)
     (simp add: update_price_history_def two_sample_state_def initial_surv_state_def Let_def)

subsection \<open>Before the first successful fee fetch\<close>

lemma update_price_history_fields:
  "LAST_VOLATILITY_REFERENCE_USD (update_price_history p a b s) = LAST_VOLATILITY_REFERENCE_USD s"
  "last_price_volatility_alert_ts (update_price_history p a b s) = last_price_volatility_alert_ts s"
  "current_fee_state (update_price_history p a b s) = current_fee_state s"
  "last_fee_alert_ts (update_price_history p a b s) = last_fee_alert_ts s"
  "raised (update_price_history p a b s) = raised s"
  "PRICE_HISTORY (update_price_history p a b (s\<lparr>LAST_VOLATILITY_REFERENCE_USD := r\<rparr>))
     = PRICE_HISTORY (update_price_history p a b s)"
  "update_price_history p a b (s\<lparr>LAST_VOLATILITY_REFERENCE_USD := r\<rparr>)
     = (update_price_history p a b s)\<lparr>LAST_VOLATILITY_REFERENCE_USD := r\<rparr>"
  by (simp_all add: update_price_history_def Let_def)

lemma volatility_evaluation_keeps:
  "current_fee_state (fst (volatility_evaluation cfg inp c p s)) = current_fee_state s"
  "last_fee_alert_ts (fst (volatility_evaluation cfg inp c p s)) = last_fee_alert_ts s"
  by (simp_all add: volatility_evaluation_def perform_contextual_analysis_def Let_def
        split: option.splits)

lemma volatility_blocked:
  assumes "current_fee_state s = INIT
    \<or> \<not> now inp - last_price_volatility_alert_ts s > PRICE_VOLATILITY_COOLDOWN"
  shows "snd (volatility_evaluation cfg inp cur old s) = []"
  using assms by (auto simp add: volatility_evaluation_def Let_def)

lemma price_surveillance_keeps:
  "current_fee_state (fst (price_surveillance cfg inp s)) = current_fee_state s"
  "last_fee_alert_ts (fst (price_surveillance cfg inp s)) = last_fee_alert_ts s"
  by (simp_all add: price_surveillance_def Let_def volatility_evaluation_keeps
        update_price_history_fields split: option.splits)

lemma macro_surveillance_keeps:
  "current_fee_state (fst (macro_surveillance cfg inp s)) = current_fee_state s"
  "last_fee_alert_ts (fst (macro_surveillance cfg inp s)) = last_fee_alert_ts s"
  by (simp_all add: macro_surveillance_def perform_contextual_analysis_def split: option.splits)

lemma price_surveillance_INIT:
  "current_fee_state s = INIT \<Longrightarrow>
   snd (price_surveillance cfg inp s) = []
   \<and> current_fee_state (fst (price_surveillance cfg inp s)) = INIT"
  by (simp add: price_surveillance_keeps)
     (simp add: price_surveillance_def Let_def volatility_blocked update_price_history_fields
        split: option.splits)

lemma macro_surveillance_INIT:
  "current_fee_state s = INIT \<Longrightarrow>
   snd (macro_surveillance cfg inp s) = []
   \<and> current_fee_state (fst (macro_surveillance cfg inp s)) = INIT"
  by (simp add: macro_surveillance_def)

lemma surveillance_cycle_INIT_failed:
  assumes "current_fee_state s = INIT" "fees inp = None \<or> fees inp = Some []"
  shows "snd (surveillance_cycle cfg inp s) = []
       \<and> current_fee_state (fst (surveillance_cycle cfg inp s)) = INIT"
  using assms
  by (simp add: surveillance_cycle_alerts surveillance_cycle_state fee_surveillance_failed
        price_surveillance_INIT macro_surveillance_INIT)

lemma surveillance_task_INIT_failed:
  "current_fee_state s = INIT \<Longrightarrow> \<forall>inp \<in> set inps. fees inp = None \<or> fees inp = Some [] \<Longrightarrow>
   snd (surveillance_task cfg inps s) = []
   \<and> current_fee_state (fst (surveillance_task cfg inps s)) = INIT"
proof (induction inps arbitrary: s)
  case Nil
  then show ?case by simp
next
  case (Cons inp rest)
  have c: "snd (surveillance_cycle cfg inp s) = []
       \<and> current_fee_state (fst (surveillance_cycle cfg inp s)) = INIT"
    using Cons.prems by (intro surveillance_cycle_INIT_failed) simp_all
  have "snd (surveillance_task cfg rest (fst (surveillance_cycle cfg inp s))) = []
     \<and> current_fee_state (fst (surveillance_task cfg rest (fst (surveillance_cycle cfg inp s))))
         = INIT"
    using c Cons.prems by (intro Cons.IH) simp_all
  then show ?case
    unfolding surveillance_task_alerts_Cons surveillance_task_state_Cons using c by simp
qed

text \<open>
  Claim C10. In fee state \<open>INIT\<close> the price section sends no volatility alert and the
  macro section sends no report, whatever the price history and the clock are; and over
  any number of cycles whose fee fetch fails (an error or an empty answer) the task
  stays in \<open>INIT\<close> and sends nothing at all.
\<close>

theorem uninitialized_suppresses_volatility_and_macro:
  assumes "current_fee_state s = INIT"
  shows "snd (price_surveillance cfg inp s) = []
       \<and> snd (macro_surveillance cfg inp s) = []
       \<and> ((\<forall>i \<in> set inps. fees i = None \<or> fees i = Some []) \<longrightarrow>
            snd (surveillance_task cfg inps s) = []
            \<and> current_fee_state (fst (surveillance_task cfg inps s)) = INIT)"
  using assms price_surveillance_INIT macro_surveillance_INIT surveillance_task_INIT_failed
  by blast

theorem uninitialized_suppresses_volatility_and_macro_witness:
  "current_fee_state failing_fee_history_state = INIT
   \<and> fees (example_input 100000 None (Some \<lparr>eur = 50000, usd = 55000\<rparr>)) = None
   \<and> snd (surveillance_task example_config
            [example_input 100000 None (Some \<lparr>eur = 50000, usd = 55000\<rparr>)]
            failing_fee_history_state) = []
   \<and> current_fee_state (fst (surveillance_task example_config
            [example_input 100000 None (Some \<lparr>eur = 50000, usd = 55000\<rparr>)]
            failing_fee_history_state)) = INIT"
proof -
  have h: "current_fee_state failing_fee_history_state = INIT"
    by (simp add: failing_fee_history_state_def initial_surv_state_def)
  have f: "fees (example_input 100000 None (Some \<lparr>eur = 50000, usd = 55000\<rparr>)) = None"
    by (simp add: example_input_def)
  from uninitialized_suppresses_volatility_and_macro [OF h, of example_config _
         "[example_input 100000 None (Some \<lparr>eur = 50000, usd = 55000\<rparr>)]"] f h
  show ?thesis by simp
qed

subsection \<open>Persisting a fee transition\<close>

lemma fee_surveillance_alert_ts:
  "last_fee_alert_ts (fst (fee_surveillance cfg inp s)) = last_fee_alert_ts s
   \<or> last_fee_alert_ts (fst (fee_surveillance cfg inp s)) = now inp"
  by (simp add: fee_surveillance_def update_fee_history_def Let_def split: option.splits)

lemma surveillance_cycle_alert_ts:
  "last_fee_alert_ts (fst (surveillance_cycle cfg inp s)) = last_fee_alert_ts s
   \<or> last_fee_alert_ts (fst (surveillance_cycle cfg inp s)) = now inp"
  using fee_surveillance_alert_ts [of cfg inp s]
  by (auto simp: surveillance_cycle_state price_surveillance_keeps macro_surveillance_keeps)

lemma interval_pos: "0 < SURVEILLANCE_INTERVAL"
  by (simp add: SURVEILLANCE_INTERVAL_def)

lemma spaced_last_clock: "spaced t inps \<Longrightarrow> t \<le> last_clock t inps"
proof (induction inps arbitrary: t)
  case Nil
  show ?case by simp
next
  case (Cons inp rest)
  then have "now inp \<le> last_clock (now inp) rest" by simp
  then show ?case using Cons.prems interval_pos by simp
qed

lemma spaced_append:
  "spaced t (inps @ [inp]) \<longleftrightarrow> spaced t inps \<and> now inp > last_clock t inps + SURVEILLANCE_INTERVAL"
  by (induction inps arbitrary: t) auto

lemma surveillance_task_alert_ts:
  "last_fee_alert_ts s \<le> t \<Longrightarrow> spaced t inps \<Longrightarrow>
   last_fee_alert_ts (fst (surveillance_task cfg inps s)) \<le> last_clock t inps"
proof (induction inps arbitrary: s t)
  case Nil
  then show ?case by simp
next
  case (Cons inp rest)
  have sp: "now inp > t + SURVEILLANCE_INTERVAL" "spaced (now inp) rest"
    using Cons.prems(2) by simp_all
  have step: "last_fee_alert_ts (fst (surveillance_cycle cfg inp s)) \<le> now inp"
    using surveillance_cycle_alert_ts [of cfg inp s] Cons.prems(1) sp(1) interval_pos by auto
  show ?case
  proof (cases "raised (fst (surveillance_cycle cfg inp s)) \<noteq> None")
    case True
    then show ?thesis
      unfolding surveillance_task_state_Cons last_clock.simps
      using step spaced_last_clock [OF sp(2)] by simp
  next
    case False
    then show ?thesis
      unfolding surveillance_task_state_Cons last_clock.simps
      using Cons.IH [OF step sp(2)] by simp
  qed
qed

lemma fee_transition_step:
  assumes "current_fee_state s \<noteq> INIT"
    and "fees inp = Some d" and "d \<noteq> []"
    and "new_fee_state cfg (dict_get d ''fastestFee'' (Finite 0)) \<noteq> current_fee_state s"
    and "now inp - last_fee_alert_ts s > ALERT_COOLDOWN"
  shows "current_fee_state (fst (fee_surveillance cfg inp s))
           = new_fee_state cfg (dict_get d ''fastestFee'' (Finite 0))"
    and "last_fee_alert_ts (fst (fee_surveillance cfg inp s)) = now inp"
    and "snd (fee_surveillance cfg inp s)
           = fee_alert (new_fee_state cfg (dict_get d ''fastestFee'' (Finite 0)))
               (current_fee_state s) (dict_get d ''fastestFee'' (Finite 0))"
  using assms
  by (simp_all add: fee_surveillance_def update_fee_history_def Let_def)

lemma surveillance_cycle_fee_state:
  "current_fee_state (fst (surveillance_cycle cfg inp s))
     = current_fee_state (fst (fee_surveillance cfg inp s))"
  by (simp add: surveillance_cycle_state price_surveillance_keeps macro_surveillance_keeps)

text \<open>
  Claim C4. In a run of the task from its initial state, with the first clock reading
  more than 300 seconds after the epoch and every pass more than
  \<open>SURVEILLANCE_INTERVAL\<close> seconds after the previous one, the cooldown test of
  line 209 holds at every evaluation. So on every evaluation with an initialized state
  whose computed level differs from the stored one, the new level is the stored one
  after the fee section and at the end of the pass, and its message is sent.
\<close>

theorem fee_transition_persisted:
  assumes "spaced 0 (inps @ [inp])"
    and "s = fst (surveillance_task cfg inps initial_surv_state)"
    and "current_fee_state s \<noteq> INIT"
    and "fees inp = Some d" and "d \<noteq> []"
    and "new_fee_state cfg (dict_get d ''fastestFee'' (Finite 0)) \<noteq> current_fee_state s"
  shows "current_fee_state (fst (fee_surveillance cfg inp s))
           = new_fee_state cfg (dict_get d ''fastestFee'' (Finite 0))
       \<and> current_fee_state (fst (surveillance_cycle cfg inp s))
           = new_fee_state cfg (dict_get d ''fastestFee'' (Finite 0))
       \<and> snd (fee_surveillance cfg inp s) \<noteq> []"
proof -
  have sp: "spaced 0 inps" "now inp > last_clock 0 inps + SURVEILLANCE_INTERVAL"
    using assms(1) by (simp_all add: spaced_append)
  have "last_fee_alert_ts initial_surv_state \<le> 0"
    by (simp add: initial_surv_state_def)
  then have "last_fee_alert_ts s \<le> last_clock 0 inps"
    unfolding assms(2) using sp(1) by (rule surveillance_task_alert_ts)
  then have cool: "now inp - last_fee_alert_ts s > ALERT_COOLDOWN"
    using sp(2) by (simp add: SURVEILLANCE_INTERVAL_def ALERT_COOLDOWN_def)
  note step = fee_transition_step [OF assms(3) assms(4) assms(5) assms(6) cool]
  show ?thesis
    using step fee_alert_change [OF assms(6)] by (simp add: surveillance_cycle_fee_state)
qed

theorem fee_transition_persisted_witness:
  "spaced 0 [example_input 1700000000 (Some [(''fastestFee'', Finite 3)]) None,
             example_input 1700000301 (Some [(''fastestFee'', Finite 50)]) None]
   \<and> current_fee_state (fst (surveillance_task example_config
         [example_input 1700000000 (Some [(''fastestFee'', Finite 3)]) None]
         initial_surv_state)) = LOW
   \<and> current_fee_state (fst (surveillance_cycle example_config
         (example_input 1700000301 (Some [(''fastestFee'', Finite 50)]) None)
         (fst (surveillance_task example_config
           [example_input 1700000000 (Some [(''fastestFee'', Finite 3)]) None]
           initial_surv_state)))) = HIGH"
proof -
  let ?i1 = "example_input 1700000000 (Some [(''fastestFee'', Finite 3)]) None"
  let ?i2 = "example_input 1700000301 (Some [(''fastestFee'', Finite 50)]) None"
  let ?s = "fst (surveillance_task example_config [?i1] initial_surv_state)"
  have sp: "spaced 0 ([?i1] @ [?i2])"
    by (simp add: example_input_def SURVEILLANCE_INTERVAL_def)
  have low: "current_fee_state ?s = LOW"
    by (simp add: surveillance_cycle_def fee_surveillance_def price_surveillance_def
          macro_surveillance_def update_fee_history_def example_input_def initial_surv_state_def
          example_config_def new_fee_state_def py_gt_def py_le_def dict_get_def Let_def
          MACRO_REPORT_COOLDOWN_def)
  have f: "fees ?i2 = Some [(''fastestFee'', Finite 50)]"
    by (simp add: example_input_def)
  have n: "new_fee_state example_config (dict_get [(''fastestFee'', Finite 50)] ''fastestFee'' (Finite 0))
             = HIGH"
    by (simp add: new_fee_state_def example_config_def dict_get_def py_gt_def)
  from fee_transition_persisted [OF sp refl _ f, of example_config] low n
  have "current_fee_state (fst (surveillance_cycle example_config ?i2 ?s)) = HIGH"
    by simp
  then show ?thesis using sp low by simp
qed

subsection \<open>The volatility reference\<close>














section \<open>Properties of the remote hardware monitoring\<close>

subsection \<open>The persistence debouncer\<close>

lemma debounce_cases:
  "debounce thr v t d =
     (if v \<ge> thr
      then (if high_count d + 1 \<ge> PERSISTENCE_COUNT \<and> \<not> is_alert_active d
               \<and> t - last_alert d > ALERT_COOLDOWN
            then (d\<lparr>high_count := high_count d + 1, is_alert_active := True, last_alert := t\<rparr>,
                  [Rising])
            else (d\<lparr>high_count := high_count d + 1\<rparr>, []))
      else (if is_alert_active d
            then (d\<lparr>high_count := 0, is_alert_active := False\<rparr>, [Recovery])
            else (d\<lparr>high_count := 0\<rparr>, [])))"
  by (simp add: debounce_def PERSISTENCE_COUNT_def)

lemma rising_iff:
  "Rising \<in> set (snd (debounce thr v t d)) \<longleftrightarrow>
     v \<ge> thr \<and> high_count d + 1 \<ge> PERSISTENCE_COUNT \<and> \<not> is_alert_active d
     \<and> t - last_alert d > ALERT_COOLDOWN"
  by (simp add: debounce_cases)

lemma recovery_iff:
  "Recovery \<in> set (snd (debounce thr v t d)) \<longleftrightarrow> v < thr \<and> is_alert_active d"
  by (auto simp add: debounce_cases)

lemma debounce_run_events_Cons:
  "concat (snd (debounce_run thr ((t, v) # rest) d)) =
     snd (debounce thr v t d) @ concat (snd (debounce_run thr rest (fst (debounce thr v t d))))"
  by (simp split: prod.splits)

lemma alternating_step:
  "alternating (is_alert_active (fst (debounce thr v t d))) es \<Longrightarrow>
   alternating (is_alert_active d) (snd (debounce thr v t d) @ es)"
  by (auto simp add: debounce_cases split: if_splits)

lemma alternating_run:
  "alternating (is_alert_active d) (concat (snd (debounce_run thr xs d)))"
proof (induction xs arbitrary: d)
  case Nil
  show ?case by simp
next
  case (Cons x xs)
  obtain t v where x: "x = (t, v)" by (cases x)
  show ?case
    unfolding x debounce_run_events_Cons
    by (rule alternating_step) (rule Cons.IH)
qed

lemma alternating_no_rising:
  "alternating True es \<Longrightarrow> Recovery \<notin> set es \<Longrightarrow> es = []"
proof (cases es)
  case Nil
  then show ?thesis by simp
next
  case (Cons e es')
  assume "alternating True es" "Recovery \<notin> set es"
  then show ?thesis using Cons by (cases e) auto
qed

lemma debounce_event_cases: "e = Rising \<or> e = Recovery"
  by (cases e) auto

lemma alternating_count_rising:
  "alternating a es \<Longrightarrow> Recovery \<notin> set es \<Longrightarrow> length es \<le> 1"
proof (cases es)
  case Nil then show ?thesis by simp
next
  case (Cons e es')
  assume a: "alternating a es" "Recovery \<notin> set es"
  then have "e = Rising" using Cons debounce_event_cases[of e] by auto
  with a Cons have "alternating True es'" "Recovery \<notin> set es'" by auto
  then have "es' = []" by (rule alternating_no_rising)
  then show ?thesis using Cons by simp
qed

lemma over_threshold_no_recovery:
  "\<forall>(t, v) \<in> set xs. v \<ge> thr \<Longrightarrow> Recovery \<notin> set (concat (snd (debounce_run thr xs d)))"
proof (induction xs arbitrary: d)
  case Nil
  show ?case by simp
next
  case (Cons x xs)
  obtain t v where x: "x = (t, v)" by (cases x)
  have "v \<ge> thr" using Cons.prems x by simp
  then have "Recovery \<notin> set (snd (debounce thr v t d))" by (simp add: recovery_iff)
  moreover have "Recovery \<notin> set (concat (snd (debounce_run thr xs (fst (debounce thr v t d)))))"
    using Cons.prems by (intro Cons.IH) simp
  ultimately show ?case unfolding x debounce_run_events_Cons by simp
qed

lemma one_rising_per_run:
  "\<forall>(t, v) \<in> set xs. v \<ge> thr \<Longrightarrow> length (concat (snd (debounce_run thr xs d))) \<le> 1"
  using alternating_run over_threshold_no_recovery alternating_count_rising by blast

lemma debounce_run_state_Cons:
  "fst (debounce_run thr ((t, v) # rest) d) = fst (debounce_run thr rest (fst (debounce thr v t d)))"
  by (simp split: prod.splits)

lemma debounce_run_snoc:
  "fst (debounce_run thr (xs @ [(t, v)]) d) = fst (debounce thr v t (fst (debounce_run thr xs d)))"
proof (induction xs arbitrary: d)
  case Nil
  show ?case by (simp split: prod.splits)
next
  case (Cons x xs)
  obtain t0 v0 where x: "x = (t0, v0)" by (cases x)
  show ?case unfolding x append_Cons debounce_run_state_Cons by (rule Cons.IH)
qed

lemma debounce_trace_snoc:
  "debounce_trace thr (xs @ [(t, v)]) d =
     debounce_trace thr xs d
     @ map (Pair t) (snd (debounce thr v t (fst (debounce_run thr xs d))))"
proof (induction xs arbitrary: d)
  case Nil
  show ?case by simp
next
  case (Cons x xs)
  obtain t0 v0 where x: "x = (t0, v0)" by (cases x)
  show ?case
    unfolding x append_Cons debounce_trace.simps debounce_run_state_Cons Cons.IH by simp
qed

lemma debounce_trace_events:
  "map snd (debounce_trace thr xs d) = concat (snd (debounce_run thr xs d))"
proof (induction xs arbitrary: d)
  case Nil
  show ?case by simp
next
  case (Cons x xs)
  obtain t0 v0 where x: "x = (t0, v0)" by (cases x)
  show ?case
    unfolding x debounce_trace.simps debounce_run_events_Cons
    by (simp add: Cons.IH comp_def)
qed

lemma consecutive_over_snoc:
  "consecutive_over thr (xs @ [(t, v)])
     = (if v \<ge> thr then Suc (consecutive_over thr xs) else 0)"
  by (simp add: consecutive_over_def)

lemma alert_in_force_snoc:
  "alert_in_force (tr @ [(t, Rising)])"
  "\<not> alert_in_force (tr @ [(t, Recovery)])"
  by (simp_all add: alert_in_force_def)

lemma last_rising_time_snoc:
  "last_rising_time (tr @ [(t, Rising)]) = t"
  "last_rising_time (tr @ [(t, Recovery)]) = last_rising_time tr"
  by (simp_all add: last_rising_time_def)

lemma debouncer_state_of_trace:
  "high_count (fst (debounce_run thr xs initial_debouncer)) = consecutive_over thr xs
   \<and> is_alert_active (fst (debounce_run thr xs initial_debouncer))
       = alert_in_force (debounce_trace thr xs initial_debouncer)
   \<and> last_alert (fst (debounce_run thr xs initial_debouncer))
       = last_rising_time (debounce_trace thr xs initial_debouncer)"
proof (induction xs rule: rev_induct)
  case Nil
  show ?case
    by (simp add: initial_debouncer_def consecutive_over_def alert_in_force_def
          last_rising_time_def)
next
  case (snoc x xs)
  obtain t v where x: "x = (t, v)" by (cases x)
  show ?case
    unfolding x debounce_run_snoc debounce_trace_snoc consecutive_over_snoc
    using snoc.IH
    by (simp add: debounce_cases alert_in_force_snoc last_rising_time_snoc)
qed

lemma next_rising_iff:
  "Rising \<in> set (snd (debounce thr v t (fst (debounce_run thr xs initial_debouncer)))) \<longleftrightarrow>
     v \<ge> thr \<and> consecutive_over thr (xs @ [(t, v)]) \<ge> PERSISTENCE_COUNT
     \<and> \<not> alert_in_force (debounce_trace thr xs initial_debouncer)
     \<and> t - last_rising_time (debounce_trace thr xs initial_debouncer) > ALERT_COOLDOWN"
  using debouncer_state_of_trace [of thr xs]
  by (simp add: rising_iff consecutive_over_snoc)

lemma next_recovery_iff:
  "Recovery \<in> set (snd (debounce thr v t (fst (debounce_run thr xs initial_debouncer)))) \<longleftrightarrow>
     v < thr \<and> alert_in_force (debounce_trace thr xs initial_debouncer)"
  using debouncer_state_of_trace [of thr xs]
  by (simp add: recovery_iff)

lemma debounce_at_most_one: "length (snd (debounce thr v t d)) \<le> 1"
  by (simp add: debounce_cases)

lemma one_alert_per_run:
  "\<forall>(t, v) \<in> set ys. v \<ge> thr \<Longrightarrow> length (debounce_trace thr ys d) \<le> 1"
  using one_rising_per_run [of ys thr d] debounce_trace_events [of thr ys d]
  by (metis length_map)

text \<open>
  Claim C5 as stated fails for the recovery alert: after three samples of 85 against a
  threshold of 80 the rising alert goes out at clock 1120, and the sample of 70 at clock
  1180 sends the recovery 60 seconds later, inside the cooldown of 300 seconds.
\<close>

theorem recovery_ignores_cooldown:
  "snd (debounce_run 80 [(1000, 85), (1060, 85), (1120, 85), (1180, 70)] initial_debouncer)
     = [[], [], [Rising], [Recovery]]
   \<and> last_alert (fst (debounce_run 80 [(1000, 85), (1060, 85), (1120, 85)] initial_debouncer))
     = 1120
   \<and> \<not> 1180 - 1120 > ALERT_COOLDOWN"
  by (simp add: debounce_cases initial_debouncer_def PERSISTENCE_COUNT_def ALERT_COOLDOWN_def)

text \<open>
  Claim C5, amended. Fed a sequence of samples from a fresh state, a debouncer sends a
  rising alert on the next sample exactly when that sample is at or over the threshold,
  it is at least the \<open>PERSISTENCE_COUNT\<close>-th of an unbroken run of such samples, the
  last alert sent before it, if any, is not a rising one, and more than
  \<open>ALERT_COOLDOWN\<close> seconds have passed since the last rising alert; so a run of
  samples at or over the threshold gets at most one alert. It sends a recovery alert
  exactly when the sample is under the threshold and the last alert sent before it is a
  rising one, whatever the cooldown. A sample sends at most one alert, and rising and
  recovery alerts alternate.
\<close>

theorem debouncer_alerts:
  "(Rising \<in> set (snd (debounce thr v t (fst (debounce_run thr xs initial_debouncer)))) \<longleftrightarrow>
      v \<ge> thr \<and> consecutive_over thr (xs @ [(t, v)]) \<ge> PERSISTENCE_COUNT
      \<and> \<not> alert_in_force (debounce_trace thr xs initial_debouncer)
      \<and> t - last_rising_time (debounce_trace thr xs initial_debouncer) > ALERT_COOLDOWN)
   \<and> (Recovery \<in> set (snd (debounce thr v t (fst (debounce_run thr xs initial_debouncer)))) \<longleftrightarrow>
      v < thr \<and> alert_in_force (debounce_trace thr xs initial_debouncer))
   \<and> length (snd (debounce thr v t d)) \<le> 1
   \<and> alternating False (map snd (debounce_trace thr xs initial_debouncer))
   \<and> ((\<forall>(t, v) \<in> set ys. v \<ge> thr) \<longrightarrow> length (debounce_trace thr ys d) \<le> 1)"
proof -
  have "alternating False (map snd (debounce_trace thr xs initial_debouncer))"
    using alternating_run [of initial_debouncer thr xs]
    by (simp add: debounce_trace_events initial_debouncer_def)
  then show ?thesis
    using next_rising_iff next_recovery_iff debounce_at_most_one one_alert_per_run by blast
qed

theorem debouncer_alerts_witness:
  "(85::real) \<ge> 80
   \<and> consecutive_over 80 [(1000, 85), (1060, 85), (1120, 70), (1180, 85), (1240, 85), (1300, 85)] = 3
   \<and> debounce_trace 80 [(1000, 85), (1060, 85), (1120, 70), (1180, 85), (1240, 85)]
        initial_debouncer = []
   \<and> Rising \<in> set (snd (debounce 80 85 1300
        (fst (debounce_run 80 [(1000, 85), (1060, 85), (1120, 70), (1180, 85), (1240, 85)]
               initial_debouncer))))
   \<and> length (debounce_trace 80 [(1000, 85), (1060, 85), (1120, 85), (1180, 85)]
               initial_debouncer) \<le> 1"
proof -
  let ?xs = "[(1000, 85), (1060, 85), (1120, 70), (1180, 85), (1240, 85::real)]"
  have c: "consecutive_over 80 (?xs @ [(1300, 85)]) = 3"
    by (simp add: consecutive_over_def)
  have tr: "debounce_trace 80 ?xs initial_debouncer = []"
    by (simp add: debounce_cases initial_debouncer_def PERSISTENCE_COUNT_def)
  have g: "(85::real) \<ge> 80
      \<and> consecutive_over 80 (?xs @ [(1300, 85)]) \<ge> PERSISTENCE_COUNT
      \<and> \<not> alert_in_force (debounce_trace 80 ?xs initial_debouncer)
      \<and> 1300 - last_rising_time (debounce_trace 80 ?xs initial_debouncer) > ALERT_COOLDOWN"
    unfolding c tr
    by (simp add: alert_in_force_def last_rising_time_def PERSISTENCE_COUNT_def
          ALERT_COOLDOWN_def)
  have h: "\<forall>(t, v) \<in> set [(1000, 85), (1060, 85), (1120, 85), (1180, 85::real)]. v \<ge> 80"
    by simp
  note inst = debouncer_alerts [where thr = 80 and v = 85 and t = 1300 and xs = ?xs
      and ys = "[(1000, 85), (1060, 85), (1120, 85), (1180, 85)]" and d = initial_debouncer]
  have r: "Rising \<in> set (snd (debounce 80 85 1300 (fst (debounce_run 80 ?xs initial_debouncer))))"
    using inst g by blast
  have l: "length (debounce_trace 80 [(1000, 85), (1060, 85), (1120, 85), (1180, 85)]
               initial_debouncer) \<le> 1"
    using inst h by blast
  show ?thesis using c tr r l by simp
qed

subsection \<open>The disk loop\<close>


lemma disk_monitoring_Cons:
  "disk_monitoring t ((mount, pct, used) # rest) m =
     (if t - last_fired m mount > ALERT_COOLDOWN
      then (fst (disk_monitoring t rest (m(remote_key mount \<mapsto> t))),
            DiskNode mount pct used # snd (disk_monitoring t rest (m(remote_key mount \<mapsto> t))))
      else disk_monitoring t rest m)"
  by (simp add: last_fired_def Let_def split: prod.splits)

declare disk_monitoring.simps(2) [simp del]



subsection \<open>The hardware section of a cycle\<close>

lemma message_kinds:
  "is_cpu_alert (cpu_message v e)"
  "\<not> is_cpu_alert (ram_message v e)"
  "\<not> is_cpu_alert (load_message l lpc e)"
  by (cases e; simp)+

lemma filter_cpu_messages:
  "filter is_cpu_alert (map (cpu_message v) es) = map (cpu_message v) es"
  "filter is_cpu_alert (map (ram_message v) es) = []"
  "filter is_cpu_alert (map (load_message l lpc) es) = []"
  by (simp_all add: filter_id_conv filter_empty_conv message_kinds)

lemma disk_monitoring_no_cpu:
  "filter is_cpu_alert (snd (disk_monitoring t alerts m)) = []"
proof (induction alerts arbitrary: m)
  case Nil
  show ?case by simp
next
  case (Cons a alerts)
  obtain mount pct used where a: "a = (mount, pct, used)" by (cases a)
  show ?case by (simp add: a disk_monitoring_Cons Cons.IH)
qed

lemma hardware_monitoring_cpu:
  assumes "remote_status inp = Some rd"
  shows "cpu (fst (hardware_monitoring cfg inp s))
           = fst (debounce (CPU_THRESHOLD_PCT cfg) (cpu_pct rd) (sys_now inp) (cpu s))
       \<and> filter is_cpu_alert (snd (hardware_monitoring cfg inp s))
           = map (cpu_message (cpu_pct rd))
               (snd (debounce (CPU_THRESHOLD_PCT cfg) (cpu_pct rd) (sys_now inp) (cpu s)))"
  using assms
    disk_monitoring_no_cpu [of "sys_now inp" "remote_alerts inp" "last_remote_disk_alert s"]
  by (auto simp add: hardware_monitoring_def Let_def filter_cpu_messages split: prod.splits)

lemma monitor_system_task_Cons:
  "snd (monitor_system_task cfg (inp # rest) s)
     = snd (hardware_monitoring cfg inp s)
       # snd (monitor_system_task cfg rest (fst (hardware_monitoring cfg inp s)))"
  "fst (monitor_system_task cfg (inp # rest) s)
     = fst (monitor_system_task cfg rest (fst (hardware_monitoring cfg inp s)))"
  by (simp_all split: prod.splits)

subsection \<open>Three CPU samples\<close>

text \<open>
  Claim C7. With a CPU threshold of 80, persistence count 3 and a fresh task, three
  cycles with CPU samples 85, 85, 85 send exactly one rising CPU alert, in the third
  cycle; with samples 85, 85, 70 they send no CPU alert and leave the counter at 0.
  RAM, load and disk samples are arbitrary. The clock reading of the third cycle is
  more than \<open>ALERT_COOLDOWN\<close> seconds after the epoch, the initial value of
  \<^verbatim>\<open>last_remote_cpu_alert\<close> being 0.
\<close>

theorem cpu_persistence_samples:
  assumes "CPU_THRESHOLD_PCT cfg = 80"
    and "remote_status i1 = Some r1" and "remote_status i2 = Some r2"
    and "remote_status i3 = Some r3"
    and "cpu_pct r1 = 85" and "cpu_pct r2 = 85"
    and "sys_now i3 > ALERT_COOLDOWN"
  shows "(cpu_pct r3 = 85 \<longrightarrow>
            map (filter is_cpu_alert) (snd (monitor_system_task cfg [i1, i2, i3] initial_sys_state))
              = [[], [], [CpuNode 85]])
       \<and> (cpu_pct r3 = 70 \<longrightarrow>
            map (filter is_cpu_alert) (snd (monitor_system_task cfg [i1, i2, i3] initial_sys_state))
              = [[], [], []]
            \<and> high_count (cpu (fst (monitor_system_task cfg [i1, i2, i3] initial_sys_state))) = 0)"
proof -
  let ?s1 = "fst (hardware_monitoring cfg i1 initial_sys_state)"
  let ?s2 = "fst (hardware_monitoring cfg i2 ?s1)"
  let ?s3 = "fst (hardware_monitoring cfg i3 ?s2)"
  have c0: "cpu initial_sys_state = initial_debouncer"
    by (simp add: initial_sys_state_def)
  have s1: "cpu ?s1 = \<lparr>high_count = 1, is_alert_active = False, last_alert = 0\<rparr>"
    and a1: "filter is_cpu_alert (snd (hardware_monitoring cfg i1 initial_sys_state)) = []"
    using hardware_monitoring_cpu [OF assms(2), of cfg initial_sys_state] assms(1,5)
    by (simp_all add: c0 debounce_cases initial_debouncer_def PERSISTENCE_COUNT_def)
  have s2: "cpu ?s2 = \<lparr>high_count = 2, is_alert_active = False, last_alert = 0\<rparr>"
    and a2: "filter is_cpu_alert (snd (hardware_monitoring cfg i2 ?s1)) = []"
    using hardware_monitoring_cpu [OF assms(3), of cfg ?s1] assms(1,6)
    by (simp_all add: s1 debounce_cases PERSISTENCE_COUNT_def)
  have hi: "filter is_cpu_alert (snd (hardware_monitoring cfg i3 ?s2)) = [CpuNode 85]"
    if "cpu_pct r3 = 85"
    using hardware_monitoring_cpu [OF assms(4), of cfg ?s2] assms(1,7) that
    by (simp add: s2 debounce_cases PERSISTENCE_COUNT_def)
  have lo: "filter is_cpu_alert (snd (hardware_monitoring cfg i3 ?s2)) = []
            \<and> high_count (cpu ?s3) = 0"
    if "cpu_pct r3 = 70"
    using hardware_monitoring_cpu [OF assms(4), of cfg ?s2] assms(1) that
    by (simp add: s2 debounce_cases)
  have run: "snd (monitor_system_task cfg [i1, i2, i3] initial_sys_state)
      = [snd (hardware_monitoring cfg i1 initial_sys_state),
         snd (hardware_monitoring cfg i2 ?s1), snd (hardware_monitoring cfg i3 ?s2)]"
    and fin: "fst (monitor_system_task cfg [i1, i2, i3] initial_sys_state) = ?s3"
    unfolding monitor_system_task_Cons by simp_all
  show ?thesis
    unfolding run fin using a1 a2 hi lo by simp
qed

theorem cpu_persistence_samples_witness:
  "map (filter is_cpu_alert)
     (snd (monitor_system_task example_config
        [example_sys_input 1700000000 85 [], example_sys_input 1700000060 85 [],
         example_sys_input 1700000120 85 []] initial_sys_state))
     = [[], [], [CpuNode 85]]
   \<and> map (filter is_cpu_alert)
     (snd (monitor_system_task example_config
        [example_sys_input 1700000000 85 [], example_sys_input 1700000060 85 [],
         example_sys_input 1700000120 70 []] initial_sys_state))
     = [[], [], []]
   \<and> high_count (cpu (fst (monitor_system_task example_config
        [example_sys_input 1700000000 85 [], example_sys_input 1700000060 85 [],
         example_sys_input 1700000120 70 []] initial_sys_state))) = 0"
proof -
  have c: "CPU_THRESHOLD_PCT example_config = 80"
    by (simp add: example_config_def)
  have r: "remote_status (example_sys_input t v [])
             = Some \<lparr>cpu_pct = v, ram_pct = 40, load1 = 1 / 2, cores = 2\<rparr>" for t v
    by (simp add: example_sys_input_def)
  have v: "cpu_pct \<lparr>cpu_pct = x, ram_pct = 40, load1 = 1 / 2, cores = 2\<rparr> = x" for x :: real
    by simp
  have t: "sys_now (example_sys_input 1700000120 x []) > ALERT_COOLDOWN" for x
    by (simp add: example_sys_input_def ALERT_COOLDOWN_def)
  from cpu_persistence_samples [OF c r r r v v t, of 85] cpu_persistence_samples [OF c r r r v v t, of 70]
  show ?thesis by simp
qed

subsection \<open>The cooldown of the alert keys\<close>





















section \<open>Properties of the LND monitoring\<close>

text \<open>
  Claim C9. The new identifiers are the current snapshot minus the previous one and the
  removed ones the previous minus the current; a snapshot against itself gives two empty
  sets, so the peers and channels blocks send nothing; and exchanging the two snapshots
  exchanges the two components.
\<close>

theorem set_diff_algebra:
  "set_diff prev cur = (cur - prev, prev - cur)
   \<and> set_diff S S = ({}, {})
   \<and> fst (set_diff A B) = snd (set_diff B A)
   \<and> snd (set_diff A B) = fst (set_diff B A)
   \<and> peers_check S S = (S, {})
   \<and> channels_check S S = (S, {})"
  by (simp add: set_diff_def peers_check_def channels_check_def)

end
